theory Spec2Isabelle
  imports Main "HOL-Library.Word"
begin

section \<open>Kernel definitions and the GPU backend's filter\<close>

text \<open>
  Source: \<^verbatim>\<open>tensorflow/compiler/tf2xla/xla_gpu_backend.cc\<close>, function
  \<^verbatim>\<open>GpuOpFilter(KernelDef* kdef)\<close>.

  The element-type enumeration \<^verbatim>\<open>DataType\<close> is declared outside the files at hand.
  The filter names two of its tags, \<^verbatim>\<open>DT_STRING\<close> and \<^verbatim>\<open>DT_FLOAT8_E4M3FN\<close>; every
  other tag is kept apart by its number.
\<close>

datatype DataType = DT_STRING | DT_FLOAT8_E4M3FN | DT_OTHER nat

text \<open>
  \<^verbatim>\<open>KernelDef::AttrConstraint\<close>: the slot's \<^verbatim>\<open>name()\<close> and the repeated field
  \<^verbatim>\<open>allowed_values().list().type\<close>, a list (order and duplicates are kept, as in the
  protocol buffer).
\<close>

record AttrConstraint =
  name :: string
  allowed_values :: "DataType list"

record KernelDef =
  op :: string
  constraint :: "AttrConstraint list"

text \<open>\<^verbatim>\<open>mutable_list()->add_type(dtype)\<close>: append one tag to the slot's type list.\<close>

definition add_type :: "DataType \<Rightarrow> AttrConstraint \<Rightarrow> AttrConstraint" where
  "add_type dtype c = c\<lparr>allowed_values := allowed_values c @ [dtype]\<rparr>"

text \<open>\<^verbatim>\<open>mutable_list()->clear_type()\<close>: empty the slot's type list.\<close>

definition clear_type :: "AttrConstraint \<Rightarrow> AttrConstraint" where
  "clear_type c = c\<lparr>allowed_values := []\<rparr>"

text \<open>
  Modelled from the spec: \<^verbatim>\<open>AddDtypeToKernelDefConstraint(name, dtype, kdef)\<close> is declared
  in \<^verbatim>\<open>tf2xla_util.h\<close> and its body is not among the source files. The spec's rule table
  says of both calls: "ensure the named (d)type-constraint slot explicitly allows the
  string/text element type". The model adds the tag to the type list of every slot that
  carries the given name and leaves every other slot, and the slot order, alone.
\<close>

definition AddDtypeToKernelDefConstraint :: "string \<Rightarrow> DataType \<Rightarrow> KernelDef \<Rightarrow> KernelDef" where
  "AddDtypeToKernelDefConstraint nm dtype kdef =
     kdef\<lparr>constraint := map (\<lambda>c. if name c = nm then add_type dtype c else c) (constraint kdef)\<rparr>"

text \<open>
  The body of the loop over \<^verbatim>\<open>*kdef->mutable_constraint()\<close> in the \<^verbatim>\<open>ConcatV2\<close> branch
  (lines 36 to 48). The array \<^verbatim>\<open>kGpuAllTypes\<close> is declared in \<^verbatim>\<open>xla_op_registry.h\<close>,
  outside the files at hand, and is a parameter here. The inner loop
  \<^verbatim>\<open>for (const auto& dtype : kGpuAllTypes) add_type(dtype)\<close> is the \<open>fold\<close>.
\<close>

definition widen_constraint :: "DataType list \<Rightarrow> AttrConstraint \<Rightarrow> AttrConstraint" where
  "widen_constraint kGpuAllTypes c =
     (if name c = ''T'' then
        (if length (allowed_values c) = 1 \<and> allowed_values c ! 0 = DT_FLOAT8_E4M3FN
         then fold add_type kGpuAllTypes (clear_type c)
         else c)
      else c)"

text \<open>
  \<^verbatim>\<open>GpuOpFilter\<close>: the three conditionals in the order of the source, the definition
  mutated in place being passed along; the result pairs the returned \<^verbatim>\<open>bool\<close> with the
  definition as the call leaves it.
\<close>

definition GpuOpFilter :: "DataType list \<Rightarrow> KernelDef \<Rightarrow> bool \<times> KernelDef" where
  "GpuOpFilter kGpuAllTypes kdef =
     (let k1 = (if op kdef = ''Const''
                then AddDtypeToKernelDefConstraint ''dtype'' DT_STRING kdef else kdef);
          k2 = (if op k1 = ''Assert''
                then AddDtypeToKernelDefConstraint ''T'' DT_STRING k1 else k1);
          k3 = (if op k2 = ''ConcatV2''
                then k2\<lparr>constraint := map (widen_constraint kGpuAllTypes) (constraint k2)\<rparr>
                else k2)
      in (True, k3))"

text \<open>The condition of the third rule, on one slot.\<close>

definition is_placeholder_T :: "AttrConstraint \<Rightarrow> bool" where
  "is_placeholder_T c = (name c = ''T'' \<and> allowed_values c = [DT_FLOAT8_E4M3FN])"

text \<open>A kernel definition some rule of the filter applies to.\<close>

definition matches_rule :: "KernelDef \<Rightarrow> bool" where
  "matches_rule kdef =
     (op kdef = ''Const'' \<or> op kdef = ''Assert'' \<or>
      (op kdef = ''ConcatV2'' \<and> list_ex is_placeholder_T (constraint kdef)))"

section \<open>Concatenation along an axis with dynamic dimensions\<close>

text \<open>
  Source: the code of \<^verbatim>\<open>ConcatBaseOp::Compile\<close> in \<^verbatim>\<open>concat_op.cc\<close> as the change
  description gives it (\<^verbatim>\<open>src/unnamed/part_000\<close>, lines 31 to 65).

  \<^verbatim>\<open>xla::Shape\<close>, as far as the code reads it: for every axis the extent
  \<^verbatim>\<open>dimensions(axis)\<close> (an \<^verbatim>\<open>int64_t\<close>) and the flag \<^verbatim>\<open>is_dynamic_dimension(axis)\<close>.
\<close>

record Dimension =
  extent :: int
  is_dynamic :: bool

type_synonym Shape = "Dimension list"

text \<open>
  Both accessors index the shape's per-axis vectors; \<^verbatim>\<open>xla::Shape\<close> itself is not among
  the source files. An index outside the rank has no value here (\<open>None\<close>), and the loop
  body below then fails with \<open>IndexOutOfRange\<close> instead of emitting an instruction.
\<close>

definition is_dynamic_dimension :: "Shape \<Rightarrow> int \<Rightarrow> bool option" where
  "is_dynamic_dimension shape axis =
     (if 0 \<le> axis \<and> axis < int (length shape) then Some (is_dynamic (shape ! nat axis)) else None)"

definition dimensions :: "Shape \<Rightarrow> int \<Rightarrow> int option" where
  "dimensions shape axis =
     (if 0 \<le> axis \<and> axis < int (length shape) then Some (extent (shape ! nat axis)) else None)"

text \<open>
  \<^verbatim>\<open>xla::XlaOp\<close>: the instructions the code emits, as terms. \<open>Handle\<close> is an operand that
  comes from outside (an element of \<^verbatim>\<open>input_data\<close>), \<open>InvalidOp\<close> the default-constructed
  \<^verbatim>\<open>XlaOp\<close>. \<^verbatim>\<open>ConstantR0<int32_t>\<close> carries a 32-bit value.
\<close>

datatype XlaOp =
    Handle nat
  | InvalidOp
  | ConcatInDim "XlaOp list" int
  | GetDimensionSize XlaOp int
  | ConstantR0 "32 word"
  | Add XlaOp XlaOp
  | SetDimensionSize XlaOp XlaOp int

text \<open>
  \<^verbatim>\<open>ctx->InputXlaShape(i)\<close> returns a status or a shape; a status that is not OK makes
  \<^verbatim>\<open>OP_REQUIRES_OK\<close> leave \<^verbatim>\<open>Compile\<close> at once, with that status and without an output.
\<close>

type_synonym Status = string

datatype compile_error = InputShapeError Status | IndexOutOfRange

text \<open>
  One input of the operation: \<^verbatim>\<open>input_data[i]\<close> paired with what
  \<^verbatim>\<open>ctx->InputXlaShape(i)\<close> returns. \<^verbatim>\<open>N\<close> is the number of these pairs.
\<close>

type_synonym ConcatInput = "XlaOp \<times> (Status + Shape)"

text \<open>The three local variables the loop updates.\<close>

record loop_state =
  any_input_dynamic :: bool
  dynamic_size_sum :: XlaOp
  size_sum_initialized :: bool

text \<open>
  Lines 52 to 57 of the loop body: the first extent starts the sum, every later one is
  added to it with \<^verbatim>\<open>xla::Add\<close>.
\<close>

definition accumulate :: "XlaOp \<Rightarrow> loop_state \<Rightarrow> loop_state" where
  "accumulate input_size st =
     (if \<not> size_sum_initialized st
      then st\<lparr>dynamic_size_sum := input_size, size_sum_initialized := True\<rparr>
      else st\<lparr>dynamic_size_sum := Add (dynamic_size_sum st) input_size\<rparr>)"

text \<open>
  The body of \<^verbatim>\<open>for (int i = 0; i < N; ++i)\<close>, lines 39 to 57. The static extent, an
  \<^verbatim>\<open>int64_t\<close>, is passed to \<^verbatim>\<open>ConstantR0<int32_t>\<close>: \<open>word_of_int\<close> is that narrowing
  (the value modulo \<open>2 ^ 32\<close>).
\<close>

definition loop_body :: "int \<Rightarrow> ConcatInput \<Rightarrow> loop_state \<Rightarrow> compile_error + loop_state" where
  "loop_body axis inp st =
     (case snd inp of
        Inl status \<Rightarrow> Inl (InputShapeError status)
      | Inr input_shape \<Rightarrow>
          (case is_dynamic_dimension input_shape axis of
             None \<Rightarrow> Inl IndexOutOfRange
           | Some dyn \<Rightarrow>
               (if dyn
                then Inr (accumulate (GetDimensionSize (fst inp) axis)
                            (st\<lparr>any_input_dynamic := True\<rparr>))
                else (case dimensions input_shape axis of
                        None \<Rightarrow> Inl IndexOutOfRange
                      | Some d \<Rightarrow> Inr (accumulate (ConstantR0 (word_of_int d)) st)))))"

fun loop :: "int \<Rightarrow> ConcatInput list \<Rightarrow> loop_state \<Rightarrow> compile_error + loop_state" where
  "loop axis [] st = Inr st"
| "loop axis (inp # rest) st =
     (case loop_body axis inp st of
        Inl e \<Rightarrow> Inl e
      | Inr st' \<Rightarrow> loop axis rest st')"

text \<open>
  Lines 31 to 65: the concatenation is emitted first, the loop runs over the inputs, and
  \<^verbatim>\<open>SetDimensionSize\<close> is applied when \<^verbatim>\<open>any_input_dynamic && N > 0\<close>. \<open>Inr\<close> is the value
  given to \<^verbatim>\<open>ctx->SetOutput(0, result)\<close>.
\<close>

definition Compile :: "ConcatInput list \<Rightarrow> int \<Rightarrow> compile_error + XlaOp" where
  "Compile inputs axis =
     (let input_data = map fst inputs;
          N = length inputs;
          result = ConcatInDim input_data axis
      in case loop axis inputs
                \<lparr>any_input_dynamic = False, dynamic_size_sum = InvalidOp,
                 size_sum_initialized = False\<rparr> of
           Inl e \<Rightarrow> Inl e
         | Inr st \<Rightarrow>
             Inr (if any_input_dynamic st \<and> N > 0
                  then SetDimensionSize result (dynamic_size_sum st) axis
                  else result))"

subsection \<open>The instructions the lines build\<close>

text \<open>
  Every call of \<^verbatim>\<open>xla::ConcatInDim\<close>, \<^verbatim>\<open>xla::GetDimensionSize\<close>, \<^verbatim>\<open>xla::ConstantR0\<close>,
  \<^verbatim>\<open>xla::Add\<close> and \<^verbatim>\<open>xla::SetDimensionSize\<close> builds one instruction in
  \<^verbatim>\<open>ctx->builder()\<close> and returns its handle, whether or not the handle is used
  afterwards. The functions below list the instructions lines 31 to 65 build, in the
  order of the calls; they follow \<open>accumulate\<close>, \<open>loop_body\<close>, \<open>loop\<close> and \<open>Compile\<close>
  branch by branch.

  Lines 52 to 57: no call when the sum is started, one \<^verbatim>\<open>xla::Add\<close> otherwise.
\<close>

definition accumulate_emits :: "XlaOp \<Rightarrow> loop_state \<Rightarrow> XlaOp list" where
  "accumulate_emits input_size st =
     (if \<not> size_sum_initialized st
      then []
      else [Add (dynamic_size_sum st) input_size])"

text \<open>
  Lines 39 to 57: \<^verbatim>\<open>xla::GetDimensionSize\<close> for a dynamic input, \<^verbatim>\<open>xla::ConstantR0\<close> for a
  static one, then the calls of lines 52 to 57. Nothing is built where the body leaves
  before line 44.
\<close>

definition loop_body_emits :: "int \<Rightarrow> ConcatInput \<Rightarrow> loop_state \<Rightarrow> XlaOp list" where
  "loop_body_emits axis inp st =
     (case snd inp of
        Inl status \<Rightarrow> []
      | Inr input_shape \<Rightarrow>
          (case is_dynamic_dimension input_shape axis of
             None \<Rightarrow> []
           | Some dyn \<Rightarrow>
               (if dyn
                then GetDimensionSize (fst inp) axis #
                       accumulate_emits (GetDimensionSize (fst inp) axis)
                         (st\<lparr>any_input_dynamic := True\<rparr>)
                else (case dimensions input_shape axis of
                        None \<Rightarrow> []
                      | Some d \<Rightarrow>
                          ConstantR0 (word_of_int d) #
                            accumulate_emits (ConstantR0 (word_of_int d)) st))))"

text \<open>The loop: the calls of each round, until the inputs end or a round fails.\<close>

fun loop_emits :: "int \<Rightarrow> ConcatInput list \<Rightarrow> loop_state \<Rightarrow> XlaOp list" where
  "loop_emits axis [] st = []"
| "loop_emits axis (inp # rest) st =
     loop_body_emits axis inp st @
     (case loop_body axis inp st of
        Inl e \<Rightarrow> []
      | Inr st' \<Rightarrow> loop_emits axis rest st')"

text \<open>
  Lines 31 to 65: \<^verbatim>\<open>xla::ConcatInDim\<close> first (line 31), then the loop's calls, then
  \<^verbatim>\<open>xla::SetDimensionSize\<close> under the guard of line 61.
\<close>

definition Compile_emits :: "ConcatInput list \<Rightarrow> int \<Rightarrow> XlaOp list" where
  "Compile_emits inputs axis =
     (let input_data = map fst inputs;
          N = length inputs;
          result = ConcatInDim input_data axis;
          start = \<lparr>any_input_dynamic = False, dynamic_size_sum = InvalidOp,
                   size_sum_initialized = False\<rparr>
      in result # loop_emits axis inputs start @
         (case loop axis inputs start of
            Inl e \<Rightarrow> []
          | Inr st \<Rightarrow>
              (if any_input_dynamic st \<and> N > 0
               then [SetDimensionSize result (dynamic_size_sum st) axis]
               else [])))"

subsection \<open>What the claims speak of\<close>

text \<open>An input whose shape is available and has the axis.\<close>

definition shape_known :: "int \<Rightarrow> ConcatInput \<Rightarrow> bool" where
  "shape_known axis inp =
     (case snd inp of Inl status \<Rightarrow> False
      | Inr shape \<Rightarrow> 0 \<le> axis \<and> axis < int (length shape))"

text \<open>An input that is dynamic, or static, along the axis.\<close>

definition dynamic_along :: "int \<Rightarrow> ConcatInput \<Rightarrow> bool" where
  "dynamic_along axis inp =
     (case snd inp of Inl status \<Rightarrow> False
      | Inr shape \<Rightarrow> is_dynamic_dimension shape axis = Some True)"

definition static_along :: "int \<Rightarrow> ConcatInput \<Rightarrow> bool" where
  "static_along axis inp =
     (case snd inp of Inl status \<Rightarrow> False
      | Inr shape \<Rightarrow> is_dynamic_dimension shape axis = Some False)"

text \<open>The static extent of an input along the axis (0 where there is none).\<close>

definition static_extent :: "int \<Rightarrow> ConcatInput \<Rightarrow> int" where
  "static_extent axis inp =
     (case snd inp of Inl status \<Rightarrow> 0
      | Inr shape \<Rightarrow> (case dimensions shape axis of None \<Rightarrow> 0 | Some d \<Rightarrow> d))"

text \<open>
  The instruction that stands for one input's extent: the query on the input if it is
  dynamic along the axis, the constant of its static extent otherwise.
\<close>

definition extent_instruction :: "int \<Rightarrow> ConcatInput \<Rightarrow> XlaOp" where
  "extent_instruction axis inp =
     (if dynamic_along axis inp then GetDimensionSize (fst inp) axis
      else ConstantR0 (word_of_int (static_extent axis inp)))"

text \<open>
  The actual run-time extent of an input, given the run-time size \<open>rt x axis\<close> of every
  operand \<open>x\<close>: a dynamic input has its run-time size, a static one its static extent.
\<close>

definition run_time_extent :: "(XlaOp \<Rightarrow> int \<Rightarrow> int) \<Rightarrow> int \<Rightarrow> ConcatInput \<Rightarrow> int" where
  "run_time_extent rt axis inp =
     (if dynamic_along axis inp then rt (fst inp) axis else static_extent axis inp)"

text \<open>Run-time sizes given by position: operand \<open>Handle i\<close> has the \<open>i\<close>-th size of the list.\<close>

definition sizes_by_handle :: "int list \<Rightarrow> XlaOp \<Rightarrow> int \<Rightarrow> int" where
  "sizes_by_handle szs x axis =
     (case x of Handle i \<Rightarrow> (if i < length szs then szs ! i else 0) | _ \<Rightarrow> 0)"

text \<open>
  Modelled from the spec: the run-time meaning of the scalar instructions the loop emits
  (the evaluator of these instructions is not among the source files). The spec, 4.2 step
  3: the run-time extent is "a query instruction ... if dynamic, or a compile-time
  constant equal to the static extent otherwise; accumulate via run-time addition". The
  scalars are 32-bit, as the constant the code emits is, so the addition is that of
  \<open>32 word\<close>. Any other instruction is not a scalar extent.
\<close>

fun evaluate :: "(XlaOp \<Rightarrow> int \<Rightarrow> int) \<Rightarrow> XlaOp \<Rightarrow> 32 word option" where
  "evaluate rt (ConstantR0 c) = Some c"
| "evaluate rt (GetDimensionSize x axis) = Some (word_of_int (rt x axis))"
| "evaluate rt (Add a b) =
     (case evaluate rt a of
        None \<Rightarrow> None
      | Some va \<Rightarrow> (case evaluate rt b of None \<Rightarrow> None | Some vb \<Rightarrow> Some (va + vb)))"
| "evaluate rt (Handle i) = None"
| "evaluate rt InvalidOp = None"
| "evaluate rt (ConcatInDim xs axis) = None"
| "evaluate rt (SetDimensionSize r s axis) = None"

text \<open>
  Modelled from the spec: what the emitted result says of its extent along the axis (the
  shape inference of the two instructions is not among the source files). The spec, 3 and
  4.2: a descriptor "holds either a static non-negative extent, or a flag marking the axis
  dynamic plus a reference to the IR value that computes its run-time extent"; the native
  combine instruction has "a provisional static shape (sum of static axis extents ...)";
  attaching the accumulated extent marks the axis dynamic.
\<close>

datatype AxisExtent = StaticExtent int | DynamicExtent XlaOp

fun axis_extent :: "ConcatInput list \<Rightarrow> int \<Rightarrow> XlaOp \<Rightarrow> AxisExtent option" where
  "axis_extent inputs axis (ConcatInDim xs ax) =
     (if ax = axis \<and> xs = map fst inputs \<and> list_all (shape_known axis) inputs
      then Some (StaticExtent (sum_list (map (static_extent axis) inputs)))
      else None)"
| "axis_extent inputs axis (SetDimensionSize r s ax) =
     (if ax = axis
      then (case axis_extent inputs axis r of None \<Rightarrow> None | Some e \<Rightarrow> Some (DynamicExtent s))
      else axis_extent inputs axis r)"
| "axis_extent inputs axis (Handle i) = None"
| "axis_extent inputs axis InvalidOp = None"
| "axis_extent inputs axis (GetDimensionSize x ax) = None"
| "axis_extent inputs axis (ConstantR0 c) = None"
| "axis_extent inputs axis (Add a b) = None"

text \<open>
  Modelled from the spec: the checks \<^verbatim>\<open>Compile\<close> makes before the lines at hand are not
  among the source files. The spec, 4.2: the operation "fails with a shape-inference
  error if input ranks disagree, or if axis is out of range; fails with a
  backend-capability error if the run-time extent-query instruction is unsupported by the
  target backend". The inputs arrive with their shapes ("already-lowered input IRValues
  with populated Shape metadata").
\<close>

datatype combine_error = ShapeInferenceError | BackendCapabilityError | CompileFailed compile_error

definition ranks_disagree :: "Shape list \<Rightarrow> bool" where
  "ranks_disagree shapes =
     (case shapes of [] \<Rightarrow> False | s # rest \<Rightarrow> list_ex (\<lambda>t. length t \<noteq> length s) rest)"

definition axis_out_of_range :: "Shape list \<Rightarrow> int \<Rightarrow> bool" where
  "axis_out_of_range shapes axis =
     list_ex (\<lambda>s. axis < 0 \<or> int (length s) \<le> axis) shapes"

definition CombineAlongAxis :: "(XlaOp \<times> Shape) list \<Rightarrow> int \<Rightarrow> combine_error + XlaOp" where
  "CombineAlongAxis inputs axis =
     (if ranks_disagree (map snd inputs) \<or> axis_out_of_range (map snd inputs) axis
      then Inl ShapeInferenceError
      else (case Compile (map (\<lambda>(x, s). (x, Inr s)) inputs) axis of
              Inl e \<Rightarrow> Inl (CompileFailed e)
            | Inr result \<Rightarrow> Inr result))"

section \<open>Helper lemmas on the filter\<close>

lemma fold_add_type_clear:
  "fold add_type ts (clear_type c) = c\<lparr>allowed_values := ts\<rparr>"
proof -
  have "fold add_type ts d = d\<lparr>allowed_values := allowed_values d @ ts\<rparr>" for d
    by (induction ts arbitrary: d) (simp_all add: add_type_def)
  then show ?thesis by (simp add: clear_type_def)
qed

lemma singleton_list_iff:
  "(length xs = Suc 0 \<and> xs ! 0 = x) = (xs = [x])"
  by (cases xs) auto

lemma widen_constraint_eq:
  "widen_constraint g c = (if is_placeholder_T c then c\<lparr>allowed_values := g\<rparr> else c)"
  by (simp add: widen_constraint_def is_placeholder_T_def singleton_list_iff fold_add_type_clear)

lemma GpuOpFilter_ConcatV2:
  "op kdef = ''ConcatV2'' \<Longrightarrow>
   GpuOpFilter g kdef = (True, kdef\<lparr>constraint := map (widen_constraint g) (constraint kdef)\<rparr>)"
  by (simp add: GpuOpFilter_def)

lemma map_widen_id:
  "\<not> list_ex is_placeholder_T cs \<Longrightarrow> map (widen_constraint g) cs = cs"
  by (induction cs) (simp_all add: widen_constraint_eq)

section \<open>Claims on the filter\<close>

text \<open>
  C7. \<^verbatim>\<open>GpuOpFilter\<close> returns \<^verbatim>\<open>true\<close> for every kernel definition and every backend type
  list: no kernel is rejected.
\<close>

theorem GpuOpFilter_returns_true: "fst (GpuOpFilter kGpuAllTypes kdef) = True"
  by (simp add: GpuOpFilter_def Let_def)

text \<open>
  C1. In a \<^verbatim>\<open>ConcatV2\<close> kernel definition, a slot named \<^verbatim>\<open>T\<close> whose type list is exactly
  the one-element list \<^verbatim>\<open>[DT_FLOAT8_E4M3FN]\<close> holds, after the filter, the backend's list
  \<^verbatim>\<open>kGpuAllTypes\<close>, in its order; the slot keeps its place and name, and its list is
  non-empty as \<^verbatim>\<open>kGpuAllTypes\<close> is.
\<close>

theorem ConcatV2_placeholder_widened:
  assumes "op kdef = ''ConcatV2''"
    and "i < length (constraint kdef)"
    and "name (constraint kdef ! i) = ''T''"
    and "allowed_values (constraint kdef ! i) = [DT_FLOAT8_E4M3FN]"
    and "kGpuAllTypes \<noteq> []"
  shows "length (constraint (snd (GpuOpFilter kGpuAllTypes kdef))) = length (constraint kdef)
       \<and> name (constraint (snd (GpuOpFilter kGpuAllTypes kdef)) ! i) = ''T''
       \<and> allowed_values (constraint (snd (GpuOpFilter kGpuAllTypes kdef)) ! i) = kGpuAllTypes
       \<and> allowed_values (constraint (snd (GpuOpFilter kGpuAllTypes kdef)) ! i) \<noteq> []"
proof -
  have ph: "is_placeholder_T (constraint kdef ! i)"
    using assms(3,4) by (simp add: is_placeholder_T_def)
  have res: "constraint (snd (GpuOpFilter kGpuAllTypes kdef))
             = map (widen_constraint kGpuAllTypes) (constraint kdef)"
    using assms(1) by (simp add: GpuOpFilter_ConcatV2)
  have at_i: "constraint (snd (GpuOpFilter kGpuAllTypes kdef)) ! i
              = (constraint kdef ! i)\<lparr>allowed_values := kGpuAllTypes\<rparr>"
    using assms(2) ph by (simp add: res widen_constraint_eq)
  show ?thesis
    using assms(3,5) by (simp add: at_i) (simp add: res)
qed

theorem ConcatV2_placeholder_widened_witness:
  "allowed_values (constraint (snd (GpuOpFilter [DT_OTHER 1, DT_OTHER 19, DT_FLOAT8_E4M3FN]
      \<lparr>op = ''ConcatV2'',
       constraint = [\<lparr>name = ''T'', allowed_values = [DT_FLOAT8_E4M3FN]\<rparr>,
                     \<lparr>name = ''Tidx'', allowed_values = [DT_OTHER 3, DT_OTHER 9]\<rparr>]\<rparr>)) ! 0)
   = [DT_OTHER 1, DT_OTHER 19, DT_FLOAT8_E4M3FN]"
  using ConcatV2_placeholder_widened
    [of "\<lparr>op = ''ConcatV2'',
          constraint = [\<lparr>name = ''T'', allowed_values = [DT_FLOAT8_E4M3FN]\<rparr>,
                        \<lparr>name = ''Tidx'', allowed_values = [DT_OTHER 3, DT_OTHER 9]\<rparr>]\<rparr>"
        0 "[DT_OTHER 1, DT_OTHER 19, DT_FLOAT8_E4M3FN]"]
  by simp

text \<open>
  C4. A kernel definition that no rule applies to (its operation is neither \<^verbatim>\<open>Const\<close> nor
  \<^verbatim>\<open>Assert\<close>, and it is not a \<^verbatim>\<open>ConcatV2\<close> definition with a slot \<^verbatim>\<open>T\<close> listing exactly
  \<^verbatim>\<open>DT_FLOAT8_E4M3FN\<close>) leaves the filter as it entered, and a second run of the filter
  gives what the first gave.
\<close>

theorem GpuOpFilter_no_rule_noop:
  assumes "\<not> matches_rule kdef"
  shows "GpuOpFilter g kdef = (True, kdef)
       \<and> GpuOpFilter g (snd (GpuOpFilter g kdef)) = GpuOpFilter g kdef"
proof -
  have once: "GpuOpFilter g kdef = (True, kdef)"
  proof (cases "op kdef = ''ConcatV2''")
    case True
    with assms have "\<not> list_ex is_placeholder_T (constraint kdef)"
      by (simp add: matches_rule_def)
    then show ?thesis
      using True by (simp add: GpuOpFilter_ConcatV2 map_widen_id)
  next
    case False
    with assms show ?thesis
      by (simp add: matches_rule_def GpuOpFilter_def)
  qed
  then show ?thesis by simp
qed

theorem GpuOpFilter_no_rule_noop_witness:
  "\<not> matches_rule \<lparr>op = ''ConcatV2'',
        constraint = [\<lparr>name = ''T'', allowed_values = [DT_OTHER 1, DT_FLOAT8_E4M3FN]\<rparr>,
                      \<lparr>name = ''Tidx'', allowed_values = [DT_FLOAT8_E4M3FN]\<rparr>]\<rparr>
   \<and> GpuOpFilter [DT_OTHER 1, DT_OTHER 2]
        \<lparr>op = ''ConcatV2'',
         constraint = [\<lparr>name = ''T'', allowed_values = [DT_OTHER 1, DT_FLOAT8_E4M3FN]\<rparr>,
                       \<lparr>name = ''Tidx'', allowed_values = [DT_FLOAT8_E4M3FN]\<rparr>]\<rparr>
     = (True, \<lparr>op = ''ConcatV2'',
         constraint = [\<lparr>name = ''T'', allowed_values = [DT_OTHER 1, DT_FLOAT8_E4M3FN]\<rparr>,
                       \<lparr>name = ''Tidx'', allowed_values = [DT_FLOAT8_E4M3FN]\<rparr>]\<rparr>)"
proof -
  have h: "\<not> matches_rule \<lparr>op = ''ConcatV2'',
        constraint = [\<lparr>name = ''T'', allowed_values = [DT_OTHER 1, DT_FLOAT8_E4M3FN]\<rparr>,
                      \<lparr>name = ''Tidx'', allowed_values = [DT_FLOAT8_E4M3FN]\<rparr>]\<rparr>"
    by (simp add: matches_rule_def is_placeholder_T_def)
  from GpuOpFilter_no_rule_noop [OF h, of "[DT_OTHER 1, DT_OTHER 2]"] h
  show ?thesis by simp
qed

text \<open>
  C10. In a \<^verbatim>\<open>ConcatV2\<close> kernel definition the filter changes a slot only when it is named
  \<^verbatim>\<open>T\<close> and its type list is exactly \<^verbatim>\<open>[DT_FLOAT8_E4M3FN]\<close>: every slot with another
  name, and every slot \<^verbatim>\<open>T\<close> with any other list (one other type, or two or more types),
  is the same after the filter; the number of slots and the operation name are kept.
\<close>

theorem ConcatV2_other_slots_unchanged:
  assumes "op kdef = ''ConcatV2''"
    and "i < length (constraint kdef)"
    and "name (constraint kdef ! i) \<noteq> ''T''
         \<or> allowed_values (constraint kdef ! i) \<noteq> [DT_FLOAT8_E4M3FN]"
  shows "length (constraint (snd (GpuOpFilter g kdef))) = length (constraint kdef)
       \<and> constraint (snd (GpuOpFilter g kdef)) ! i = constraint kdef ! i
       \<and> op (snd (GpuOpFilter g kdef)) = op kdef"
proof -
  have "\<not> is_placeholder_T (constraint kdef ! i)"
    using assms(3) by (auto simp add: is_placeholder_T_def)
  then have "widen_constraint g (constraint kdef ! i) = constraint kdef ! i"
    by (simp add: widen_constraint_eq)
  then show ?thesis
    using assms(1,2) by (simp add: GpuOpFilter_ConcatV2)
qed

theorem ConcatV2_other_slots_unchanged_witness:
  "constraint (snd (GpuOpFilter [DT_OTHER 1, DT_OTHER 2]
      \<lparr>op = ''ConcatV2'',
       constraint = [\<lparr>name = ''T'', allowed_values = [DT_OTHER 1]\<rparr>,
                     \<lparr>name = ''Tidx'', allowed_values = [DT_FLOAT8_E4M3FN]\<rparr>]\<rparr>)) ! 0
     = \<lparr>name = ''T'', allowed_values = [DT_OTHER 1]\<rparr>
   \<and> constraint (snd (GpuOpFilter [DT_OTHER 1, DT_OTHER 2]
      \<lparr>op = ''ConcatV2'',
       constraint = [\<lparr>name = ''T'', allowed_values = [DT_OTHER 1]\<rparr>,
                     \<lparr>name = ''Tidx'', allowed_values = [DT_FLOAT8_E4M3FN]\<rparr>]\<rparr>)) ! 1
     = \<lparr>name = ''Tidx'', allowed_values = [DT_FLOAT8_E4M3FN]\<rparr>
   \<and> constraint (snd (GpuOpFilter [DT_OTHER 1, DT_OTHER 2]
      \<lparr>op = ''ConcatV2'',
       constraint = [\<lparr>name = ''T'', allowed_values = [DT_FLOAT8_E4M3FN, DT_OTHER 1]\<rparr>]\<rparr>)) ! 0
     = \<lparr>name = ''T'', allowed_values = [DT_FLOAT8_E4M3FN, DT_OTHER 1]\<rparr>"
  using
    ConcatV2_other_slots_unchanged
      [of "\<lparr>op = ''ConcatV2'',
            constraint = [\<lparr>name = ''T'', allowed_values = [DT_OTHER 1]\<rparr>,
                          \<lparr>name = ''Tidx'', allowed_values = [DT_FLOAT8_E4M3FN]\<rparr>]\<rparr>"
          0 "[DT_OTHER 1, DT_OTHER 2]"]
    ConcatV2_other_slots_unchanged
      [of "\<lparr>op = ''ConcatV2'',
            constraint = [\<lparr>name = ''T'', allowed_values = [DT_OTHER 1]\<rparr>,
                          \<lparr>name = ''Tidx'', allowed_values = [DT_FLOAT8_E4M3FN]\<rparr>]\<rparr>"
          1 "[DT_OTHER 1, DT_OTHER 2]"]
    ConcatV2_other_slots_unchanged
      [of "\<lparr>op = ''ConcatV2'',
            constraint = [\<lparr>name = ''T'', allowed_values = [DT_FLOAT8_E4M3FN, DT_OTHER 1]\<rparr>]\<rparr>"
          0 "[DT_OTHER 1, DT_OTHER 2]"]
  by simp

text \<open>
  C6. For a \<^verbatim>\<open>Const\<close> kernel definition every slot named \<^verbatim>\<open>dtype\<close> lists \<^verbatim>\<open>DT_STRING\<close> after
  the filter, and for an \<^verbatim>\<open>Assert\<close> kernel definition every slot named \<^verbatim>\<open>T\<close> does; the
  slots keep their names and order. (Through the model of
  \<^verbatim>\<open>AddDtypeToKernelDefConstraint\<close>, whose body is not among the source files.)
\<close>

theorem Const_Assert_allow_string:
  "(op kdef = ''Const'' \<longrightarrow>
      list_all (\<lambda>c. name c = ''dtype'' \<longrightarrow> DT_STRING \<in> set (allowed_values c))
        (constraint (snd (GpuOpFilter g kdef))))
   \<and> (op kdef = ''Assert'' \<longrightarrow>
      list_all (\<lambda>c. name c = ''T'' \<longrightarrow> DT_STRING \<in> set (allowed_values c))
        (constraint (snd (GpuOpFilter g kdef))))
   \<and> ((op kdef = ''Const'' \<or> op kdef = ''Assert'') \<longrightarrow>
      map name (constraint (snd (GpuOpFilter g kdef))) = map name (constraint kdef))"
proof -
  have names: "map name (map (\<lambda>c. if name c = nm then add_type d c else c) cs) = map name cs"
    for nm d and cs :: "AttrConstraint list"
    by (induction cs) (simp_all add: add_type_def)
  have allows: "list_all (\<lambda>c. name c = nm \<longrightarrow> d \<in> set (allowed_values c))
                  (map (\<lambda>c. if name c = nm then add_type d c else c) cs)"
    for nm d and cs :: "AttrConstraint list"
    by (induction cs) (simp_all add: add_type_def)
  have c: "op kdef = ''Const'' \<Longrightarrow>
      constraint (snd (GpuOpFilter g kdef))
      = map (\<lambda>c. if name c = ''dtype'' then add_type DT_STRING c else c) (constraint kdef)"
    by (simp add: GpuOpFilter_def AddDtypeToKernelDefConstraint_def)
  have a: "op kdef = ''Assert'' \<Longrightarrow>
      constraint (snd (GpuOpFilter g kdef))
      = map (\<lambda>c. if name c = ''T'' then add_type DT_STRING c else c) (constraint kdef)"
    by (simp add: GpuOpFilter_def AddDtypeToKernelDefConstraint_def)
  show ?thesis
    using c a names allows by auto
qed

theorem Const_Assert_allow_string_witness:
  "constraint (snd (GpuOpFilter [DT_OTHER 1]
      \<lparr>op = ''Const'', constraint = [\<lparr>name = ''dtype'', allowed_values = [DT_OTHER 1, DT_OTHER 3]\<rparr>]\<rparr>))
     = [\<lparr>name = ''dtype'', allowed_values = [DT_OTHER 1, DT_OTHER 3, DT_STRING]\<rparr>]
   \<and> list_all (\<lambda>c. DT_STRING \<in> set (allowed_values c))
       (constraint (snd (GpuOpFilter [DT_OTHER 1]
          \<lparr>op = ''Const'', constraint = [\<lparr>name = ''dtype'', allowed_values = [DT_OTHER 1, DT_OTHER 3]\<rparr>]\<rparr>)))
   \<and> list_all (\<lambda>c. DT_STRING \<in> set (allowed_values c))
       (constraint (snd (GpuOpFilter [DT_OTHER 1]
          \<lparr>op = ''Assert'', constraint = [\<lparr>name = ''T'', allowed_values = [DT_OTHER 10]\<rparr>]\<rparr>)))"
  using
    Const_Assert_allow_string
      [of "\<lparr>op = ''Const'', constraint = [\<lparr>name = ''dtype'', allowed_values = [DT_OTHER 1, DT_OTHER 3]\<rparr>]\<rparr>"
          "[DT_OTHER 1]"]
    Const_Assert_allow_string
      [of "\<lparr>op = ''Assert'', constraint = [\<lparr>name = ''T'', allowed_values = [DT_OTHER 10]\<rparr>]\<rparr>"
          "[DT_OTHER 1]"]
  by (simp add: GpuOpFilter_def AddDtypeToKernelDefConstraint_def add_type_def)

text \<open>
  C8, as the spec words it, fails on the code: the filter has no check of emptiness and no
  failure path. A \<^verbatim>\<open>ConcatV2\<close> definition whose slot \<^verbatim>\<open>T\<close> lists no type at all is
  returned with \<^verbatim>\<open>true\<close> and with the slot still empty, although the backend's list is
  not.
\<close>

theorem empty_slot_survives_filter:
  "fst (GpuOpFilter [DT_OTHER 1]
         \<lparr>op = ''ConcatV2'', constraint = [\<lparr>name = ''T'', allowed_values = []\<rparr>]\<rparr>) = True
   \<and> allowed_values (constraint (snd (GpuOpFilter [DT_OTHER 1]
         \<lparr>op = ''ConcatV2'', constraint = [\<lparr>name = ''T'', allowed_values = []\<rparr>]\<rparr>)) ! 0) = []"
  by (simp add: GpuOpFilter_def widen_constraint_def)

text \<open>
  C8, amended. The filter keeps non-emptiness: when every slot of the definition lists at
  least one type before the filter and \<^verbatim>\<open>kGpuAllTypes\<close> is not empty, every slot lists at
  least one type after it; the widening rule of \<^verbatim>\<open>ConcatV2\<close> leaves each matching slot
  \<^verbatim>\<open>T\<close> with exactly \<^verbatim>\<open>kGpuAllTypes\<close> and every other slot's list as it was; and the filter
  returns \<^verbatim>\<open>true\<close>, it has no failure of its own.
\<close>

theorem GpuOpFilter_keeps_nonempty:
  assumes "list_all (\<lambda>c. allowed_values c \<noteq> []) (constraint kdef)"
    and "kGpuAllTypes \<noteq> []"
  shows "list_all (\<lambda>c. allowed_values c \<noteq> []) (constraint (snd (GpuOpFilter kGpuAllTypes kdef)))
       \<and> fst (GpuOpFilter kGpuAllTypes kdef) = True
       \<and> (op kdef = ''ConcatV2'' \<longrightarrow>
            map allowed_values (constraint (snd (GpuOpFilter kGpuAllTypes kdef)))
            = map (\<lambda>c. if is_placeholder_T c then kGpuAllTypes else allowed_values c)
                (constraint kdef))"
proof -
  have add: "list_all (\<lambda>c. allowed_values c \<noteq> [])
               (map (\<lambda>c. if name c = nm then add_type d c else c) cs)"
    if "list_all (\<lambda>c. allowed_values c \<noteq> []) cs" for nm d and cs :: "AttrConstraint list"
    using that by (induction cs) (simp_all add: add_type_def)
  have wid: "list_all (\<lambda>c. allowed_values c \<noteq> []) (map (widen_constraint kGpuAllTypes) cs)"
    if "list_all (\<lambda>c. allowed_values c \<noteq> []) cs" for cs :: "AttrConstraint list"
    using that assms(2) by (induction cs) (simp_all add: widen_constraint_eq)
  have lists: "map allowed_values (map (widen_constraint kGpuAllTypes) cs)
               = map (\<lambda>c. if is_placeholder_T c then kGpuAllTypes else allowed_values c) cs"
    for cs :: "AttrConstraint list"
    by (induction cs) (simp_all add: widen_constraint_eq)
  have nonempty: "list_all (\<lambda>c. allowed_values c \<noteq> [])
                    (constraint (snd (GpuOpFilter kGpuAllTypes kdef)))"
  proof -
    consider (const) "op kdef = ''Const''" | (assert) "op kdef = ''Assert''"
      | (concat) "op kdef = ''ConcatV2''"
      | (other) "op kdef \<noteq> ''Const''" "op kdef \<noteq> ''Assert''" "op kdef \<noteq> ''ConcatV2''"
      by blast
    then show ?thesis
    proof cases
      case const
      then show ?thesis
        using add [OF assms(1)] by (simp add: GpuOpFilter_def AddDtypeToKernelDefConstraint_def)
    next
      case assert
      then show ?thesis
        using add [OF assms(1)] by (simp add: GpuOpFilter_def AddDtypeToKernelDefConstraint_def)
    next
      case concat
      then show ?thesis
        using wid [OF assms(1)] by (simp add: GpuOpFilter_ConcatV2)
    next
      case other
      then show ?thesis
        using assms(1) by (simp add: GpuOpFilter_def)
    qed
  qed
  have widened: "map allowed_values (constraint (snd (GpuOpFilter kGpuAllTypes kdef)))
      = map (\<lambda>c. if is_placeholder_T c then kGpuAllTypes else allowed_values c) (constraint kdef)"
    if "op kdef = ''ConcatV2''"
  proof -
    from that have "constraint (snd (GpuOpFilter kGpuAllTypes kdef))
                    = map (widen_constraint kGpuAllTypes) (constraint kdef)"
      by (simp add: GpuOpFilter_ConcatV2)
    then show ?thesis by (simp only: lists)
  qed
  show ?thesis
    using nonempty widened by (simp add: GpuOpFilter_def Let_def)
qed

theorem GpuOpFilter_keeps_nonempty_witness:
  "map allowed_values (constraint (snd (GpuOpFilter [DT_OTHER 1, DT_OTHER 19]
      \<lparr>op = ''ConcatV2'',
       constraint = [\<lparr>name = ''T'', allowed_values = [DT_FLOAT8_E4M3FN]\<rparr>,
                     \<lparr>name = ''Tidx'', allowed_values = [DT_OTHER 3]\<rparr>]\<rparr>)))
   = [[DT_OTHER 1, DT_OTHER 19], [DT_OTHER 3]]
   \<and> list_all (\<lambda>c. allowed_values c \<noteq> [])
       (constraint (snd (GpuOpFilter [DT_OTHER 1, DT_OTHER 19]
          \<lparr>op = ''ConcatV2'',
           constraint = [\<lparr>name = ''T'', allowed_values = [DT_FLOAT8_E4M3FN]\<rparr>,
                         \<lparr>name = ''Tidx'', allowed_values = [DT_OTHER 3]\<rparr>]\<rparr>)))"
proof -
  have h1: "list_all (\<lambda>c. allowed_values c \<noteq> [])
      (constraint \<lparr>op = ''ConcatV2'',
           constraint = [\<lparr>name = ''T'', allowed_values = [DT_FLOAT8_E4M3FN]\<rparr>,
                         \<lparr>name = ''Tidx'', allowed_values = [DT_OTHER 3]\<rparr>]\<rparr>)"
    by simp
  have h2: "[DT_OTHER 1, DT_OTHER 19] \<noteq> []"
    by simp
  from GpuOpFilter_keeps_nonempty [OF h1 h2]
  show ?thesis by (simp add: is_placeholder_T_def)
qed

section \<open>Helper lemmas on the loop\<close>

lemma static_along_known: "static_along axis inp \<Longrightarrow> shape_known axis inp"
  by (auto simp add: shape_known_def static_along_def is_dynamic_dimension_def
      split: sum.splits if_splits)

lemma static_not_dynamic: "static_along axis inp \<Longrightarrow> \<not> dynamic_along axis inp"
  by (auto simp add: static_along_def dynamic_along_def split: sum.splits)

lemma loop_body_known:
  assumes "shape_known axis inp"
  shows "loop_body axis inp st =
         Inr \<lparr>any_input_dynamic = (dynamic_along axis inp \<or> any_input_dynamic st),
              dynamic_size_sum =
                (if size_sum_initialized st
                 then Add (dynamic_size_sum st) (extent_instruction axis inp)
                 else extent_instruction axis inp),
              size_sum_initialized = True\<rparr>"
  using assms
  by (auto simp add: loop_body_def accumulate_def shape_known_def dynamic_along_def
      extent_instruction_def static_extent_def is_dynamic_dimension_def dimensions_def
      split: sum.splits)

lemma loop_initialized:
  assumes "list_all (shape_known axis) inputs" and "size_sum_initialized st"
  shows "loop axis inputs st =
         Inr \<lparr>any_input_dynamic = (list_ex (dynamic_along axis) inputs \<or> any_input_dynamic st),
              dynamic_size_sum = foldl Add (dynamic_size_sum st) (map (extent_instruction axis) inputs),
              size_sum_initialized = True\<rparr>"
  using assms
proof (induction inputs arbitrary: st)
  case Nil
  then show ?case by simp
next
  case (Cons inp rest)
  from Cons.prems have k: "shape_known axis inp" and ks: "list_all (shape_known axis) rest"
    by simp_all
  show ?case
    using Cons.prems(2) by (auto simp add: loop_body_known [OF k] Cons.IH [OF ks])
qed

lemma loop_from_start:
  assumes "list_all (shape_known axis) (inp # rest)"
  shows "loop axis (inp # rest)
           \<lparr>any_input_dynamic = False, dynamic_size_sum = InvalidOp,
            size_sum_initialized = False\<rparr> =
         Inr \<lparr>any_input_dynamic = list_ex (dynamic_along axis) (inp # rest),
              dynamic_size_sum =
                foldl Add (extent_instruction axis inp) (map (extent_instruction axis) rest),
              size_sum_initialized = True\<rparr>"
proof -
  from assms have k: "shape_known axis inp" and ks: "list_all (shape_known axis) rest"
    by simp_all
  show ?thesis
    by (auto simp add: loop_body_known [OF k] loop_initialized [OF ks])
qed

lemma Compile_dynamic:
  assumes "list_all (shape_known axis) (inp # rest)"
    and "list_ex (dynamic_along axis) (inp # rest)"
  shows "Compile (inp # rest) axis =
         Inr (SetDimensionSize (ConcatInDim (map fst (inp # rest)) axis)
                (foldl Add (extent_instruction axis inp) (map (extent_instruction axis) rest))
                axis)"
  using assms(2) by (simp del: loop.simps add: Compile_def Let_def loop_from_start [OF assms(1)])

lemma Compile_static:
  assumes "list_all (static_along axis) inputs"
  shows "Compile inputs axis = Inr (ConcatInDim (map fst inputs) axis)"
proof (cases inputs)
  case Nil
  then show ?thesis by (simp add: Compile_def)
next
  case (Cons inp rest)
  from assms have k: "list_all (shape_known axis) (inp # rest)"
    unfolding Cons by (simp add: list_all_iff static_along_known)
  from assms have nd: "\<not> list_ex (dynamic_along axis) (inp # rest)"
    unfolding Cons by (simp add: list_all_iff list_ex_iff static_not_dynamic)
  show ?thesis
    using nd unfolding Cons by (simp del: loop.simps add: Compile_def Let_def loop_from_start [OF k])
qed

lemma evaluate_extent_instruction:
  "evaluate rt (extent_instruction axis inp) = Some (word_of_int (run_time_extent rt axis inp))"
  by (simp add: extent_instruction_def run_time_extent_def)

lemma evaluate_foldl_Add:
  assumes "evaluate rt a = Some va"
  shows "evaluate rt (foldl Add a (map (extent_instruction axis) inputs)) =
         Some (va + word_of_int (sum_list (map (run_time_extent rt axis) inputs)))"
  using assms
proof (induction inputs arbitrary: a va)
  case Nil
  then show ?case by simp
next
  case (Cons inp rest)
  have "evaluate rt (Add a (extent_instruction axis inp)) =
        Some (va + word_of_int (run_time_extent rt axis inp))"
    using Cons.prems by (simp add: evaluate_extent_instruction)
  from Cons.IH [OF this] show ?case
    by (simp add: add.assoc)
qed

lemma evaluate_sum:
  "evaluate rt (foldl Add (extent_instruction axis inp) (map (extent_instruction axis) rest)) =
   Some (word_of_int (sum_list (map (run_time_extent rt axis) (inp # rest))))"
  by (simp add: evaluate_foldl_Add [OF evaluate_extent_instruction])

text \<open>
  With ranks that agree and the axis inside them, every read of the loop is in range and
  the operation has an output.
\<close>

lemma CombineAlongAxis_accepts:
  assumes "\<not> ranks_disagree (map snd inputs)"
    and "\<not> axis_out_of_range (map snd inputs) axis"
  shows "\<exists>result. CombineAlongAxis inputs axis = Inr result"
proof -
  have known: "list_all (shape_known axis) (map (\<lambda>(x, s). (x, Inr s)) inputs)"
    using assms(2)
    by (auto simp add: axis_out_of_range_def list_all_iff list_ex_iff shape_known_def)
  show ?thesis
  proof (cases inputs)
    case Nil
    with assms show ?thesis
      by (simp add: CombineAlongAxis_def Compile_def)
  next
    case (Cons p ps)
    obtain st where "loop axis (map (\<lambda>(x, s). (x, Inr s)) inputs)
        \<lparr>any_input_dynamic = False, dynamic_size_sum = InvalidOp,
         size_sum_initialized = False\<rparr> = Inr st"
      using loop_from_start [of axis "(\<lambda>(x, s). (x, Inr s)) p" "map (\<lambda>(x, s). (x, Inr s)) ps"]
        known unfolding Cons by (simp del: loop.simps)
    then show ?thesis
      using assms by (simp add: CombineAlongAxis_def Compile_def Let_def)
  qed
qed

section \<open>Claims on the concatenation\<close>

text \<open>
  C5. When every input's shape is available with the axis in range and at least one input
  is dynamic along the axis, the extent attached to the result is the left-to-right fold
  of \<^verbatim>\<open>xla::Add\<close> over the per-input extent instructions, taken in the order of the
  inputs and started from the first input's instruction. The emitted term is a function
  of the input sequence alone.
\<close>

theorem extent_is_left_fold_in_input_order:
  assumes "list_all (shape_known axis) inputs"
    and "list_ex (dynamic_along axis) inputs"
  shows "inputs \<noteq> [] \<and>
         Compile inputs axis =
           Inr (SetDimensionSize (ConcatInDim (map fst inputs) axis)
                  (foldl Add (extent_instruction axis (hd inputs))
                     (map (extent_instruction axis) (tl inputs)))
                  axis)"
proof (cases inputs)
  case Nil
  with assms(2) show ?thesis by simp
next
  case (Cons inp rest)
  from Compile_dynamic [of axis inp rest] assms show ?thesis
    unfolding Cons by (simp del: loop.simps)
qed

theorem extent_is_left_fold_in_input_order_witness:
  "Compile
     [(Handle 0, Inr [\<lparr>extent = 20, is_dynamic = True\<rparr>, \<lparr>extent = 64, is_dynamic = False\<rparr>]),
      (Handle 1, Inr [\<lparr>extent = 2, is_dynamic = False\<rparr>, \<lparr>extent = 64, is_dynamic = False\<rparr>]),
      (Handle 2, Inr [\<lparr>extent = 10, is_dynamic = True\<rparr>, \<lparr>extent = 64, is_dynamic = False\<rparr>])]
     0 =
   Inr (SetDimensionSize (ConcatInDim [Handle 0, Handle 1, Handle 2] 0)
          (Add (Add (GetDimensionSize (Handle 0) 0) (ConstantR0 2)) (GetDimensionSize (Handle 2) 0))
          0)"
proof -
  let ?inputs =
    "[(Handle 0, Inr [\<lparr>extent = 20, is_dynamic = True\<rparr>, \<lparr>extent = 64, is_dynamic = False\<rparr>]),
      (Handle 1, Inr [\<lparr>extent = 2, is_dynamic = False\<rparr>, \<lparr>extent = 64, is_dynamic = False\<rparr>]),
      (Handle 2, Inr [\<lparr>extent = 10, is_dynamic = True\<rparr>, \<lparr>extent = 64, is_dynamic = False\<rparr>])]
     :: ConcatInput list"
  have h1: "list_all (shape_known 0) ?inputs"
    by (simp add: shape_known_def)
  have h2: "list_ex (dynamic_along 0) ?inputs"
    by (simp add: dynamic_along_def is_dynamic_dimension_def)
  from extent_is_left_fold_in_input_order [OF h1 h2]
  show ?thesis
    by (simp add: extent_instruction_def dynamic_along_def static_extent_def
        is_dynamic_dimension_def dimensions_def)
qed

text \<open>
  The value returned when every input is static along the axis: the plain
  \<^verbatim>\<open>ConcatInDim\<close> of the inputs, with no \<^verbatim>\<open>SetDimensionSize\<close> on it; read as a shape, its
  extent along the axis is static and is the sum of the inputs' static extents.
\<close>

lemma static_inputs_result:
  assumes "list_all (static_along axis) inputs"
  shows "Compile inputs axis = Inr (ConcatInDim (map fst inputs) axis)
       \<and> map_sum id (axis_extent inputs axis) (Compile inputs axis) =
           Inr (Some (StaticExtent (sum_list (map (static_extent axis) inputs))))"
proof -
  from assms have "list_all (shape_known axis) inputs"
    by (simp add: list_all_iff static_along_known)
  then show ?thesis
    by (simp add: Compile_static [OF assms])
qed

text \<open>
  The instructions built when every input is static along the axis and there is at least
  one input: the concatenation, one constant for each input and one addition for each
  input after the first, \<open>2 * N\<close> in all. Only \<^verbatim>\<open>SetDimensionSize\<close> is left out.
\<close>

lemma static_inputs_emits_count:
  assumes "list_all (static_along axis) inputs" and "inputs \<noteq> []"
  shows "length (Compile_emits inputs axis) = 2 * length inputs"
proof -
  have body: "length (loop_body_emits axis inp st) = (if size_sum_initialized st then 2 else 1)"
    if "shape_known axis inp" for inp st
    using that
    by (auto simp add: loop_body_emits_def accumulate_emits_def shape_known_def
        is_dynamic_dimension_def dimensions_def split: sum.splits)
  have started: "length (loop_emits axis ins st) = 2 * length ins"
    if "list_all (shape_known axis) ins" and "size_sum_initialized st" for ins st
    using that
  proof (induction ins arbitrary: st)
    case Nil
    then show ?case by simp
  next
    case (Cons inp rest)
    from Cons.prems have k: "shape_known axis inp" and ks: "list_all (shape_known axis) rest"
      by simp_all
    show ?case
      using Cons.prems(2) by (simp add: body [OF k] loop_body_known [OF k] Cons.IH [OF ks])
  qed
  obtain inp rest where ins: "inputs = inp # rest"
    using assms(2) by (cases inputs) auto
  from assms(1) have k: "shape_known axis inp" and ks: "list_all (shape_known axis) rest"
    unfolding ins by (simp_all add: list_all_iff static_along_known)
  from assms(1) have nd: "\<not> list_ex (dynamic_along axis) (inp # rest)"
    unfolding ins by (simp add: list_all_iff list_ex_iff static_not_dynamic)
  have all_known: "list_all (shape_known axis) (inp # rest)"
    using k ks by simp
  have in_loop: "length (loop_emits axis (inp # rest)
                   \<lparr>any_input_dynamic = False, dynamic_size_sum = InvalidOp,
                    size_sum_initialized = False\<rparr>) = 1 + 2 * length rest"
    by (simp add: body [OF k] loop_body_known [OF k] started [OF ks])
  show ?thesis
    using nd unfolding ins Compile_emits_def Let_def
    by (simp del: loop.simps loop_emits.simps add: in_loop loop_from_start [OF all_known])
qed

text \<open>The value given to \<^verbatim>\<open>SetOutput\<close> is one of the instructions built.\<close>

lemma Compile_result_is_built:
  assumes "Compile inputs axis = Inr result"
  shows "result \<in> set (Compile_emits inputs axis)"
  using assms
  by (auto simp add: Compile_def Compile_emits_def Let_def split: sum.splits if_splits)

text \<open>
  C3 fails on the code in its last clause. With two inputs that are static along the
  axis, of shapes \<open>[4, 8]\<close> and \<open>[6, 8]\<close>, and axis 0, the value returned is the plain
  \<^verbatim>\<open>ConcatInDim\<close>, with no \<^verbatim>\<open>SetDimensionSize\<close> and with the static extent \<open>10\<close>, as
  the claim says; but the loop has built three instructions besides the concatenation,
  the constants \<open>4\<close> and \<open>6\<close> and their \<^verbatim>\<open>xla::Add\<close>, which the claim says are none
  (and the change description with the code says the sum is only computed when an input
  is dynamic).
\<close>

theorem static_inputs_still_build_extent_instructions:
  "Compile
     [(Handle 0, Inr [\<lparr>extent = 4, is_dynamic = False\<rparr>, \<lparr>extent = 8, is_dynamic = False\<rparr>]),
      (Handle 1, Inr [\<lparr>extent = 6, is_dynamic = False\<rparr>, \<lparr>extent = 8, is_dynamic = False\<rparr>])]
     0 = Inr (ConcatInDim [Handle 0, Handle 1] 0)
   \<and> axis_extent
       [(Handle 0, Inr [\<lparr>extent = 4, is_dynamic = False\<rparr>, \<lparr>extent = 8, is_dynamic = False\<rparr>]),
        (Handle 1, Inr [\<lparr>extent = 6, is_dynamic = False\<rparr>, \<lparr>extent = 8, is_dynamic = False\<rparr>])]
       0 (ConcatInDim [Handle 0, Handle 1] 0) = Some (StaticExtent 10)
   \<and> Compile_emits
       [(Handle 0, Inr [\<lparr>extent = 4, is_dynamic = False\<rparr>, \<lparr>extent = 8, is_dynamic = False\<rparr>]),
        (Handle 1, Inr [\<lparr>extent = 6, is_dynamic = False\<rparr>, \<lparr>extent = 8, is_dynamic = False\<rparr>])]
       0 =
       [ConcatInDim [Handle 0, Handle 1] 0,
        ConstantR0 4,
        ConstantR0 6,
        Add (ConstantR0 4) (ConstantR0 6)]"
  by (simp add: Compile_def Compile_emits_def loop_body_def loop_body_emits_def accumulate_def
      accumulate_emits_def is_dynamic_dimension_def dimensions_def static_extent_def
      shape_known_def)

text \<open>
  C2, as the spec words it, fails on the code: the static extent is an \<^verbatim>\<open>int64_t\<close> and the
  code emits it as a 32-bit constant. With a first input that is dynamic (bound 20,
  run-time size 5) and a second one of static extent \<open>2 ^ 31 = 2147483648\<close>, the result
  is marked dynamic, the attached extent evaluates to \<open>- 2147483643\<close>, and the sum of
  the inputs' run-time extents is \<open>2147483653\<close>.
\<close>

theorem attached_extent_wraps_at_32_bits:
  "Compile
     [(Handle 0, Inr [\<lparr>extent = 20, is_dynamic = True\<rparr>]),
      (Handle 1, Inr [\<lparr>extent = 2147483648, is_dynamic = False\<rparr>])]
     0 =
   Inr (SetDimensionSize (ConcatInDim [Handle 0, Handle 1] 0)
          (Add (GetDimensionSize (Handle 0) 0) (ConstantR0 2147483648)) 0)
   \<and> map_option sint
       (evaluate (sizes_by_handle [5, 2147483648])
          (Add (GetDimensionSize (Handle 0) 0) (ConstantR0 2147483648))) = Some (- 2147483643)
   \<and> sum_list (map (run_time_extent (sizes_by_handle [5, 2147483648]) 0)
       [(Handle 0, Inr [\<lparr>extent = 20, is_dynamic = True\<rparr>]),
        (Handle 1, Inr [\<lparr>extent = 2147483648, is_dynamic = False\<rparr>])]) = 2147483653"
  by (simp add: Compile_def loop_body_def accumulate_def is_dynamic_dimension_def
      dimensions_def sizes_by_handle_def run_time_extent_def dynamic_along_def
      static_extent_def)

text \<open>
  C2, amended. When every input's shape is available with the axis in range and at least
  one input is dynamic along the axis, the output is \<^verbatim>\<open>SetDimensionSize\<close> of the
  concatenation along the axis: the axis is marked dynamic, and the attached extent
  evaluates, for all run-time sizes, to the sum of the inputs' run-time extents reduced to
  32 bits (a static input contributes its static extent, a dynamic one its run-time size).
  It is that sum itself whenever the sum lies in the signed 32-bit range.
\<close>

theorem dynamic_result_extent_is_sum:
  assumes "list_all (shape_known axis) inputs"
    and "list_ex (dynamic_along axis) inputs"
  shows "\<exists>sz. Compile inputs axis =
                Inr (SetDimensionSize (ConcatInDim (map fst inputs) axis) sz axis)
            \<and> axis_extent inputs axis
                (SetDimensionSize (ConcatInDim (map fst inputs) axis) sz axis) =
                Some (DynamicExtent sz)
            \<and> (\<forall>rt. evaluate rt sz =
                   Some (word_of_int (sum_list (map (run_time_extent rt axis) inputs)))
                 \<and> (- (2 ^ 31) \<le> sum_list (map (run_time_extent rt axis) inputs)
                    \<and> sum_list (map (run_time_extent rt axis) inputs) < 2 ^ 31 \<longrightarrow>
                    map_option sint (evaluate rt sz) =
                      Some (sum_list (map (run_time_extent rt axis) inputs))))"
proof (cases inputs)
  case Nil
  with assms(2) show ?thesis by simp
next
  case (Cons inp rest)
  let ?sz = "foldl Add (extent_instruction axis inp) (map (extent_instruction axis) rest)"
  have out: "Compile inputs axis =
             Inr (SetDimensionSize (ConcatInDim (map fst inputs) axis) ?sz axis)"
    using Compile_dynamic [of axis inp rest] assms unfolding Cons by (simp del: loop.simps)
  have marked: "axis_extent inputs axis
                  (SetDimensionSize (ConcatInDim (map fst inputs) axis) ?sz axis) =
                Some (DynamicExtent ?sz)"
    using assms(1) by simp
  have val: "evaluate rt ?sz =
             Some (word_of_int (sum_list (map (run_time_extent rt axis) inputs)))" for rt
    unfolding Cons by (rule evaluate_sum)
  have exact: "map_option sint (evaluate rt ?sz) =
               Some (sum_list (map (run_time_extent rt axis) inputs))"
    if "- (2 ^ 31) \<le> sum_list (map (run_time_extent rt axis) inputs)"
      and "sum_list (map (run_time_extent rt axis) inputs) < 2 ^ 31" for rt
  proof -
    have "sint (word_of_int (sum_list (map (run_time_extent rt axis) inputs)) :: 32 word) =
          sum_list (map (run_time_extent rt axis) inputs)"
      using that by (simp add: sint_sbintrunc' signed_take_bit_int_eq_self)
    then show ?thesis by (simp add: val)
  qed
  from out marked val exact show ?thesis by blast
qed

theorem dynamic_result_extent_is_sum_witness:
  "Compile
     [(Handle 0, Inr [\<lparr>extent = 20, is_dynamic = True\<rparr>, \<lparr>extent = 64, is_dynamic = False\<rparr>]),
      (Handle 1, Inr [\<lparr>extent = 2, is_dynamic = False\<rparr>, \<lparr>extent = 64, is_dynamic = False\<rparr>]),
      (Handle 2, Inr [\<lparr>extent = 10, is_dynamic = True\<rparr>, \<lparr>extent = 64, is_dynamic = False\<rparr>])]
     0 =
   Inr (SetDimensionSize (ConcatInDim [Handle 0, Handle 1, Handle 2] 0)
          (Add (Add (GetDimensionSize (Handle 0) 0) (ConstantR0 2)) (GetDimensionSize (Handle 2) 0))
          0)
   \<and> map_option sint
       (evaluate (sizes_by_handle [5, 2, 3])
          (Add (Add (GetDimensionSize (Handle 0) 0) (ConstantR0 2)) (GetDimensionSize (Handle 2) 0)))
     = Some 10"
proof -
  let ?inputs =
    "[(Handle 0, Inr [\<lparr>extent = 20, is_dynamic = True\<rparr>, \<lparr>extent = 64, is_dynamic = False\<rparr>]),
      (Handle 1, Inr [\<lparr>extent = 2, is_dynamic = False\<rparr>, \<lparr>extent = 64, is_dynamic = False\<rparr>]),
      (Handle 2, Inr [\<lparr>extent = 10, is_dynamic = True\<rparr>, \<lparr>extent = 64, is_dynamic = False\<rparr>])]
     :: ConcatInput list"
  let ?rt = "sizes_by_handle [5, 2, 3]"
  have h1: "list_all (shape_known 0) ?inputs"
    by (simp add: shape_known_def)
  have h2: "list_ex (dynamic_along 0) ?inputs"
    by (simp add: dynamic_along_def is_dynamic_dimension_def)
  have total: "sum_list (map (run_time_extent ?rt 0) ?inputs) = 10"
    by (simp add: run_time_extent_def sizes_by_handle_def dynamic_along_def static_extent_def
        is_dynamic_dimension_def dimensions_def)
  from dynamic_result_extent_is_sum [OF h1 h2]
  obtain sz where out: "Compile ?inputs 0 =
        Inr (SetDimensionSize (ConcatInDim (map fst ?inputs) 0) sz 0)"
    and ev: "- (2 ^ 31) \<le> sum_list (map (run_time_extent ?rt 0) ?inputs)
             \<and> sum_list (map (run_time_extent ?rt 0) ?inputs) < 2 ^ 31 \<longrightarrow>
             map_option sint (evaluate ?rt sz) =
               Some (sum_list (map (run_time_extent ?rt 0) ?inputs))"
    by blast
  have concrete: "Compile ?inputs 0 =
        Inr (SetDimensionSize (ConcatInDim [Handle 0, Handle 1, Handle 2] 0)
          (Add (Add (GetDimensionSize (Handle 0) 0) (ConstantR0 2)) (GetDimensionSize (Handle 2) 0))
          0)"
    by (simp add: Compile_def loop_body_def accumulate_def is_dynamic_dimension_def
        dimensions_def)
  from out concrete have sz: "sz =
      Add (Add (GetDimensionSize (Handle 0) 0) (ConstantR0 2)) (GetDimensionSize (Handle 2) 0)"
    by simp
  from ev total have "map_option sint (evaluate ?rt sz) = Some 10"
    by simp
  with concrete sz show ?thesis by simp
qed

text \<open>
  C9. Against the checks modelled from the spec: when the inputs' ranks disagree or the
  axis is outside an input's rank, \<open>CombineAlongAxis\<close> fails with the shape-inference
  error; there is no output, and the error is not the backend-capability one.
\<close>

theorem CombineAlongAxis_rejects_bad_rank_or_axis:
  assumes "ranks_disagree (map snd inputs) \<or> axis_out_of_range (map snd inputs) axis"
  shows "CombineAlongAxis inputs axis = Inl ShapeInferenceError
       \<and> CombineAlongAxis inputs axis \<noteq> Inl BackendCapabilityError
       \<and> (\<forall>result. CombineAlongAxis inputs axis \<noteq> Inr result)"
  using assms by (simp add: CombineAlongAxis_def)

theorem CombineAlongAxis_rejects_bad_rank_or_axis_witness:
  "CombineAlongAxis
     [(Handle 0, [\<lparr>extent = 4, is_dynamic = False\<rparr>, \<lparr>extent = 8, is_dynamic = False\<rparr>]),
      (Handle 1, [\<lparr>extent = 6, is_dynamic = False\<rparr>])] 0 = Inl ShapeInferenceError
   \<and> CombineAlongAxis
     [(Handle 0, [\<lparr>extent = 4, is_dynamic = False\<rparr>, \<lparr>extent = 8, is_dynamic = False\<rparr>]),
      (Handle 1, [\<lparr>extent = 6, is_dynamic = True\<rparr>, \<lparr>extent = 8, is_dynamic = False\<rparr>])] 2
     = Inl ShapeInferenceError"
proof -
  let ?a = "[(Handle 0, [\<lparr>extent = 4, is_dynamic = False\<rparr>, \<lparr>extent = 8, is_dynamic = False\<rparr>]),
             (Handle 1, [\<lparr>extent = 6, is_dynamic = False\<rparr>])] :: (XlaOp \<times> Shape) list"
  let ?b = "[(Handle 0, [\<lparr>extent = 4, is_dynamic = False\<rparr>, \<lparr>extent = 8, is_dynamic = False\<rparr>]),
             (Handle 1, [\<lparr>extent = 6, is_dynamic = True\<rparr>, \<lparr>extent = 8, is_dynamic = False\<rparr>])]
            :: (XlaOp \<times> Shape) list"
  have ha: "ranks_disagree (map snd ?a) \<or> axis_out_of_range (map snd ?a) 0"
    by (simp add: ranks_disagree_def)
  have hb: "ranks_disagree (map snd ?b) \<or> axis_out_of_range (map snd ?b) 2"
    by (simp add: axis_out_of_range_def)
  from CombineAlongAxis_rejects_bad_rank_or_axis [OF ha]
    CombineAlongAxis_rejects_bad_rank_or_axis [OF hb]
  show ?thesis by blast
qed

end
